theory Spec2Isabelle
  imports Main
begin

section \<open>The signing example \<open>sign1.c\<close>: data model\<close>

text \<open>
  The program is glue code around libxml2 and the xmlsec library. The functions of
  \<open>sign1.c\<close> are translated below; what the libraries compute (parsing, XPath
  evaluation, the identifier table, key loading, signing) is not part of the program and is
  taken as a parameter, the record \<open>env\<close>, so that every theorem holds for every behaviour
  of the libraries.

  A C string is a \<open>string\<close>: the bytes before the terminating NUL. A C \<open>int\<close> result
  is an \<open>int\<close> (the program only produces 0, 1 and -1).
\<close>

datatype xmlElementType =
    XML_ELEMENT_NODE | XML_ATTRIBUTE_NODE | XML_TEXT_NODE | XML_COMMENT_NODE | XML_NAMESPACE_DECL

text \<open>An attribute: its name and its value children (\<open>attr->children\<close>, the contents of
  the text nodes of the value; the empty list is the NULL pointer).\<close>

record xmlAttr =
  attr_name :: string
  attr_children :: "string list"

text \<open>A node: type, local name, namespace URI (\<open>None\<close> when the node has no namespace),
  attributes, children.\<close>

datatype xmlNode =
  XmlNode (node_type: xmlElementType) (node_name: string) (node_ns: "string option")
          (properties: "xmlAttr list") (children: "xmlNode list")

text \<open>A non-null node pointer: the position of the node (the child indices on the way from
  the root element) and the node found there.\<close>

type_synonym xmlNodePtr = "nat list \<times> xmlNode"

text \<open>An attribute pointer: the position of the owning node and the attribute.\<close>

type_synonym xmlAttrPtr = "nat list \<times> xmlAttr"

text \<open>A document: its root element (\<open>None\<close> when \<open>xmlDocGetRootElement\<close> gives NULL) and
  its identifier table (\<open>doc->ids\<close>).\<close>

record xmlDoc =
  root :: "xmlNode option"
  ids :: "string \<rightharpoonup> xmlAttrPtr"

record xmlXPathContext =
  xp_doc :: xmlDoc
  nsHash :: "string \<rightharpoonup> string"

text \<open>The result of an XPath evaluation: \<open>nodesetval\<close> is NULL (\<open>None\<close>) or the table of
  the matched nodes, in the order the evaluator delivers them.\<close>

record xmlXPathObject =
  nodesetval :: "xmlNodePtr list option"

record xmlSecKey =
  key_data :: string
  key_name :: "string option"

record xmlSecDSigCtx =
  signKey :: "xmlSecKey option"

text \<open>Diagnostics written to the error stream, one constructor for each \<open>fprintf(stderr, ...)\<close>
  of the source, with the strings it formats.\<close>

datatype diag =
    Err_strdup
  | Err_invalid_ns_list
  | Err_register_ns string string
  | Err_wrong_args
  | Usage "string option"
  | Err_xmlsec_init
  | Err_xmlsec_version
  | Err_crypto_dl
  | Err_crypto_app_init
  | Err_crypto_init
  | Err_get_attribute string
  | Err_get_attribute_value string
  | Err_create_dsig_ctx
  | Err_load_key string
  | Err_set_key_name string
  | Err_signature_failed
  | Err_parse_file string
  | Err_find_node string
  | Err_register_certsNode
  | Err_register_certNode
  | Err_new_xpath_ctx
  | Err_register_ns_list string
  | Err_eval_xpath string
  | Err_start_node string
  | Err_sign_node

text \<open>What is written to the standard output.\<close>

datatype out_event =
    Result_header int
  | Namespace_line xmlNodePtr
  | Element_line xmlNodePtr
  | Node_line xmlNodePtr
  | DebugDump xmlSecDSigCtx
  | DocDump xmlDoc

text \<open>The trace of the signing work, in the order it happens: each entry into
  \<open>do_sign_node\<close> and each call into the signature engine. A context is named by the number
  it received when it was created.\<close>

datatype engine_call =
    Enter_do_sign_node xmlNodePtr
  | Ctx_create nat
  | Key_load nat string
  | Key_set_name nat string
  | Ctx_sign nat xmlNodePtr
  | Ctx_destroy nat

text \<open>The state outside the document: the two output streams, the signature contexts that
  are alive, the number of contexts created so far, and the trace of engine calls.\<close>

record world =
  stdout :: "out_event list"
  stderr :: "diag list"
  dsig_live :: "nat \<rightharpoonup> xmlSecDSigCtx"
  dsig_created :: nat
  engine_trace :: "engine_call list"

text \<open>The libraries, as parameters.\<close>

record env =
  strdup_ok :: "string \<Rightarrow> bool"
  xmlXPathRegisterNs :: "xmlXPathContext \<Rightarrow> string \<Rightarrow> string \<Rightarrow> int \<times> xmlXPathContext"
  xmlNodeListGetString :: "string list \<Rightarrow> string option"
  xmlAddID :: "(string \<rightharpoonup> xmlAttrPtr) \<Rightarrow> string \<Rightarrow> xmlAttrPtr \<Rightarrow> (string \<rightharpoonup> xmlAttrPtr)"
  xmlReadFile :: "string \<Rightarrow> xmlDoc option"
  xmlXPathNewContext :: "xmlDoc \<Rightarrow> xmlXPathContext option"
  xmlXPathEvalExpression :: "string \<Rightarrow> xmlXPathContext \<Rightarrow> xmlXPathObject option"
  xmlSecDSigCtxCreate :: "nat \<Rightarrow> xmlSecDSigCtx option"
  xmlSecCryptoAppKeyLoadEx :: "string \<Rightarrow> xmlSecKey option"
  xmlSecKeySetName :: "xmlSecKey \<Rightarrow> string \<Rightarrow> int \<times> xmlSecKey"
  xmlSecDSigCtxSign :: "xmlSecDSigCtx \<Rightarrow> xmlNodePtr \<Rightarrow> xmlDoc \<Rightarrow> int \<times> xmlSecDSigCtx \<times> xmlDoc"
  xmlSecInit :: int
  xmlSecCheckVersion :: int
  xmlSecCryptoDLLoadLibrary :: "int option"
  xmlSecCryptoAppInit :: int
  xmlSecCryptoInit :: int

definition eprint :: "diag \<Rightarrow> world \<Rightarrow> world" where
  "eprint m w = w\<lparr>stderr := stderr w @ [m]\<rparr>"

definition print :: "out_event list \<Rightarrow> world \<Rightarrow> world" where
  "print es w = w\<lparr>stdout := stdout w @ es\<rparr>"

section \<open>\<open>register_namespaces\<close>\<close>

text \<open>\<open>xmlStrdup\<close>: a copy of the string, or NULL when the allocation fails.\<close>

definition xmlStrdup :: "env \<Rightarrow> string \<Rightarrow> string option" where
  "xmlStrdup e s = (if strdup_ok e s then Some s else None)"

text \<open>\<open>xmlStrchr\<close>: the pointer to the first occurrence of a character, as the rest of the
  buffer from there on, or NULL.\<close>

definition xmlStrchr :: "string \<Rightarrow> char \<Rightarrow> string option" where
  "xmlStrchr s c = (if c \<in> set s then Some (dropWhile (\<lambda>x. x \<noteq> c) s) else None)"

text \<open>The string a pointer reads once the byte at \<open>c\<close> has been overwritten by NUL.\<close>

definition str_until :: "char \<Rightarrow> string \<Rightarrow> string" where
  "str_until c s = takeWhile (\<lambda>x. x \<noteq> c) s"

function register_namespaces_loop ::
  "env \<Rightarrow> xmlXPathContext \<Rightarrow> string \<Rightarrow> world \<Rightarrow> int \<times> xmlXPathContext \<times> world" where
  "register_namespaces_loop e xpathCtx next0 w =
     (let next1 = dropWhile (\<lambda>c. c = CHR '' '') next0 in
      if next1 = [] then (0, xpathCtx, w)
      else
        (case xmlStrchr next1 (CHR ''='') of
           None \<Rightarrow> (- 1, xpathCtx, eprint Err_invalid_ns_list w)
         | Some eq \<Rightarrow>
             (let prefix = str_until (CHR ''='') next1;
                  href = str_until (CHR '' '') (tl eq)
              in case xmlXPathRegisterNs e xpathCtx prefix href of
                   (rc, xpathCtx') \<Rightarrow>
                     if rc \<noteq> 0 then (- 1, xpathCtx', eprint (Err_register_ns prefix href) w)
                     else
                       (case xmlStrchr (tl eq) (CHR '' '') of
                          None \<Rightarrow> (0, xpathCtx', w)
                        | Some sp \<Rightarrow> register_namespaces_loop e xpathCtx' (tl sp) w))))"
  by pat_completeness auto
termination
proof (relation "measure (\<lambda>(e, c, s, w). length s)")
  show "wf (measure (\<lambda>(e :: env, c :: xmlXPathContext, s :: string, w :: world). length s))"
    by simp
next
  fix e :: env and xpathCtx xpathCtx' :: xmlXPathContext and next0 next1 eq sp :: string
    and w :: world
  assume next1: "next1 = dropWhile (\<lambda>c. c = CHR '' '') next0"
    and eq: "xmlStrchr next1 (CHR ''='') = Some eq"
    and sp: "xmlStrchr (tl eq) (CHR '' '') = Some sp"
  have found: "length (tl t) < length s" if "xmlStrchr s c = Some t" for s t c
  proof -
    from that have t: "t = dropWhile (\<lambda>x. x \<noteq> c) s" and c: "c \<in> set s"
      by (auto simp: xmlStrchr_def split: if_splits)
    from c have "t \<noteq> []" by (simp add: t dropWhile_eq_Nil_conv)
    then have "length (tl t) < length t" by (cases t) auto
    also have "length t \<le> length s" by (simp add: t length_dropWhile_le)
    finally show ?thesis .
  qed
  have "length (tl sp) < length (tl eq)" using sp by (rule found)
  also have "length (tl eq) < length next1" using eq by (rule found)
  also have "length next1 \<le> length next0" by (simp add: next1 length_dropWhile_le)
  finally show "((e, xpathCtx', tl sp, w), (e, xpathCtx, next0, w))
      \<in> measure (\<lambda>(e, c, s, w). length s)"
    by simp
qed

definition register_namespaces ::
  "env \<Rightarrow> xmlXPathContext \<Rightarrow> string \<Rightarrow> world \<Rightarrow> int \<times> xmlXPathContext \<times> world" where
  "register_namespaces e xpathCtx nsList w =
     (case xmlStrdup e nsList of
        None \<Rightarrow> (- 1, xpathCtx, eprint Err_strdup w)
      | Some nsListDup \<Rightarrow> register_namespaces_loop e xpathCtx nsListDup w)"

section \<open>\<open>print_xpath_nodes\<close>\<close>

text \<open>One line for each node of the set, after a header with the size (0 for a NULL set).
  The only call passes the standard output.\<close>

definition node_line :: "xmlNodePtr \<Rightarrow> out_event" where
  "node_line cur =
     (if node_type (snd cur) = XML_NAMESPACE_DECL then Namespace_line cur
      else if node_type (snd cur) = XML_ELEMENT_NODE then Element_line cur
      else Node_line cur)"

definition print_xpath_nodes :: "xmlNodePtr list option \<Rightarrow> world \<Rightarrow> world" where
  "print_xpath_nodes nodes w =
     (let nodeTab = (case nodes of None \<Rightarrow> [] | Some tab \<Rightarrow> tab);
          size = int (length nodeTab)
      in print (Result_header size # map node_line nodeTab) w)"

section \<open>\<open>RegisterID\<close>\<close>

text \<open>\<open>xmlHasProp\<close>: the attribute of the node with the given name, or NULL.\<close>

definition xmlHasProp :: "xmlNode \<Rightarrow> string \<Rightarrow> xmlAttr option" where
  "xmlHasProp node name = find (\<lambda>a. attr_name a = name) (properties node)"

text \<open>The check against an identifier that is already registered is commented out in the
  source; the result of \<open>xmlAddID\<close> is not looked at.\<close>

definition RegisterID ::
  "env \<Rightarrow> xmlNodePtr \<Rightarrow> string \<Rightarrow> xmlDoc \<Rightarrow> world \<Rightarrow> int \<times> xmlDoc \<times> world" where
  "RegisterID e node idName doc w =
     (case xmlHasProp (snd node) idName of
        None \<Rightarrow> (- 1, doc, eprint (Err_get_attribute idName) w)
      | Some attr \<Rightarrow>
          if attr_children attr = [] then (- 1, doc, eprint (Err_get_attribute idName) w)
          else
            (case xmlNodeListGetString e (attr_children attr) of
               None \<Rightarrow> (- 1, doc, eprint (Err_get_attribute_value idName) w)
             | Some name \<Rightarrow>
                 (0, doc\<lparr>ids := xmlAddID e (ids doc) name (fst node, attr)\<rparr>, w)))"

section \<open>\<open>do_sign_node\<close>\<close>

definition trace :: "engine_call \<Rightarrow> world \<Rightarrow> world" where
  "trace c w = w\<lparr>engine_trace := engine_trace w @ [c]\<rparr>"

text \<open>The label \<open>done\<close> for a context that was created: \<open>xmlSecDSigCtxDestroy\<close>.\<close>

definition destroy :: "nat \<Rightarrow> world \<Rightarrow> world" where
  "destroy c w = trace (Ctx_destroy c) (w\<lparr>dsig_live := (dsig_live w)(c := None)\<rparr>)"

definition do_sign_node ::
  "env \<Rightarrow> xmlNodePtr \<Rightarrow> string \<Rightarrow> xmlDoc \<Rightarrow> world \<Rightarrow> int \<times> xmlDoc \<times> world" where
  "do_sign_node e node key_file doc w0 =
     (let w = trace (Enter_do_sign_node node) w0 in
      case xmlSecDSigCtxCreate e (dsig_created w) of
        None \<Rightarrow> (- 1, doc, eprint Err_create_dsig_ctx w)
      | Some ctx0 \<Rightarrow>
          (let c = dsig_created w;
               w1 = trace (Ctx_create c)
                      (w\<lparr>dsig_live := (dsig_live w)(c \<mapsto> ctx0), dsig_created := Suc c\<rparr>);
               w2 = trace (Key_load c key_file) w1
           in case xmlSecCryptoAppKeyLoadEx e key_file of
                None \<Rightarrow>
                  (- 1, doc,
                   destroy c (eprint (Err_load_key key_file)
                     (w2\<lparr>dsig_live := (dsig_live w2)(c \<mapsto> ctx0\<lparr>signKey := None\<rparr>)\<rparr>)))
              | Some key \<Rightarrow>
                  (case xmlSecKeySetName e key key_file of
                     (rn, key') \<Rightarrow>
                       (let ctx1 = ctx0\<lparr>signKey := Some key'\<rparr>;
                            w3 = trace (Key_set_name c key_file)
                                   (w2\<lparr>dsig_live := (dsig_live w2)(c \<mapsto> ctx1)\<rparr>)
                        in if rn < 0 then
                             (- 1, doc, destroy c (eprint (Err_set_key_name key_file) w3))
                           else
                             (case xmlSecDSigCtxSign e ctx1 node doc of
                                (rs, ctx2, doc') \<Rightarrow>
                                  (let w4 = trace (Ctx_sign c node)
                                              (w3\<lparr>dsig_live := (dsig_live w3)(c \<mapsto> ctx2)\<rparr>)
                                   in if rs < 0 then
                                        (- 1, doc', destroy c (eprint Err_signature_failed w4))
                                      else
                                        (0, doc', destroy c (print [DebugDump ctx2] w4))))))))"

section \<open>\<open>sign_file\<close>\<close>

definition xmlSecNodeCertificates :: string where
  "xmlSecNodeCertificates = ''certificates''"

definition xmlSecNodeCertificatesNS :: string where
  "xmlSecNodeCertificatesNS = ''http://vde.com/fnn/stb/certificates/1.4.0''"

text \<open>Modelled from the spec: the name and the namespace of a signature element,
  \<open>xmlSecNodeSignature\<close> and \<open>xmlSecDSigNs\<close>, which the library declares outside
  \<open>sign1.c\<close>. The values are the ones the driver's own query \<open>//sig:Signature\<close> with
  \<open>sig=http://www.w3.org/2000/09/xmldsig#\<close> selects.\<close>

definition xmlSecNodeSignature :: string where
  "xmlSecNodeSignature = ''Signature''"

definition xmlSecDSigNs :: string where
  "xmlSecDSigNs = ''http://www.w3.org/2000/09/xmldsig#''"

text \<open>Modelled from the spec: \<open>xmlSecFindNode\<close>, the library's node locator, which is not
  in \<open>sign1.c\<close>. It performs a pre-order traversal of the subtree and returns the first
  node whose local name and namespace URI both match exactly, or nothing. The position it
  returns is relative to the node the search starts from.\<close>

fun xmlSecFindNode :: "xmlNode \<Rightarrow> string \<Rightarrow> string \<Rightarrow> xmlNodePtr option"
  and find_in_children :: "xmlNode list \<Rightarrow> nat \<Rightarrow> string \<Rightarrow> string \<Rightarrow> xmlNodePtr option" where
  "xmlSecFindNode (XmlNode t nm nsp ps cs) name ns =
     (if nm = name \<and> nsp = Some ns then Some ([], XmlNode t nm nsp ps cs)
      else find_in_children cs 0 name ns)"
| "find_in_children [] i name ns = None"
| "find_in_children (c # cs) i name ns =
     (case xmlSecFindNode c name ns of
        Some (p, n) \<Rightarrow> Some (i # p, n)
      | None \<Rightarrow> find_in_children cs (Suc i) name ns)"

text \<open>The loop over the result set: only element nodes are signed; the first failure leaves
  the loop for the label \<open>done\<close>.\<close>

fun sign_nodes ::
  "env \<Rightarrow> xmlNodePtr list \<Rightarrow> string \<Rightarrow> xmlDoc \<Rightarrow> world \<Rightarrow> int \<times> xmlDoc \<times> world" where
  "sign_nodes e [] key_file doc w = (0, doc, w)"
| "sign_nodes e (cur # rest) key_file doc w =
     (if node_type (snd cur) = XML_ELEMENT_NODE then
        (case do_sign_node e cur key_file doc w of
           (rc, doc', w') \<Rightarrow>
             if rc < 0 then (- 1, doc', eprint Err_sign_node w')
             else sign_nodes e rest key_file doc' w')
      else sign_nodes e rest key_file doc w)"

text \<open>The last part of \<open>sign_file\<close>, from the comment "signa all nodes" to the end: the
  search for a first signature node from the root, the loop, and the dump of the
  document.\<close>

definition sign_all_nodes ::
  "env \<Rightarrow> string \<Rightarrow> string \<Rightarrow> xmlDoc \<Rightarrow> xmlXPathObject \<Rightarrow> world \<Rightarrow> int \<times> world" where
  "sign_all_nodes e tmpl_file key_file doc xpathObj w =
     (case root doc of
        None \<Rightarrow> (- 1, eprint (Err_start_node tmpl_file) w)
      | Some r \<Rightarrow>
          (case xmlSecFindNode r xmlSecNodeSignature xmlSecDSigNs of
             None \<Rightarrow> (- 1, eprint (Err_start_node tmpl_file) w)
           | Some node \<Rightarrow>
               (let nodeTab = (case nodesetval xpathObj of None \<Rightarrow> [] | Some tab \<Rightarrow> tab)
                in case sign_nodes e nodeTab key_file doc w of
                     (rc, doc', w') \<Rightarrow>
                       if rc < 0 then (- 1, w')
                       else (0, print [DocDump doc'] w'))))"

text \<open>The part between the two searches for the certificate nodes and the query.\<close>

definition nsList :: string where
  "nsList = ''sig=http://www.w3.org/2000/09/xmldsig#''"

definition xpathExpr :: string where
  "xpathExpr = ''//sig:Signature''"

definition sign_file :: "env \<Rightarrow> string \<Rightarrow> string \<Rightarrow> world \<Rightarrow> int \<times> world" where
  "sign_file e tmpl_file key_file w =
     (case xmlReadFile e tmpl_file of
        None \<Rightarrow> (- 1, eprint (Err_parse_file tmpl_file) w)
      | Some doc \<Rightarrow>
     (case root doc of
        None \<Rightarrow> (- 1, eprint (Err_parse_file tmpl_file) w)
      | Some r \<Rightarrow>
     (case xmlSecFindNode r xmlSecNodeCertificates xmlSecNodeCertificatesNS of
        None \<Rightarrow> (- 1, eprint (Err_find_node xmlSecNodeCertificates) w)
      | Some certsNode \<Rightarrow>
     (case RegisterID e certsNode ''id'' doc w of
        (rc1, doc1, w1) \<Rightarrow>
     if rc1 < 0 then (- 1, eprint Err_register_certsNode w1)
     else
     (case xmlSecFindNode r ''certificate'' xmlSecNodeCertificatesNS of
        None \<Rightarrow> (- 1, eprint (Err_find_node xmlSecNodeCertificates) w1)
      | Some certNode \<Rightarrow>
     (case RegisterID e certNode ''id'' doc1 w1 of
        (rc2, doc2, w2) \<Rightarrow>
     if rc2 < 0 then (- 1, eprint Err_register_certNode w2)
     else
     (case xmlXPathNewContext e doc2 of
        None \<Rightarrow> (- 1, eprint Err_new_xpath_ctx w2)
      | Some xpathCtx \<Rightarrow>
     (case register_namespaces e xpathCtx nsList w2 of
        (rc3, xpathCtx', w3) \<Rightarrow>
     if rc3 < 0 then (- 1, eprint (Err_register_ns_list nsList) w3)
     else
     (case xmlXPathEvalExpression e xpathExpr xpathCtx' of
        None \<Rightarrow> (- 1, eprint (Err_eval_xpath xpathExpr) w3)
      | Some xpathObj \<Rightarrow>
          sign_all_nodes e tmpl_file key_file doc2 xpathObj
            (print_xpath_nodes (nodesetval xpathObj) w3))))))))))"

section \<open>\<open>main\<close>\<close>

text \<open>\<open>argv\<close> is the list of the arguments, the program name first; \<open>argc\<close> is its length.
  \<open>xmlSecCryptoDLLoadLibrary\<close> is \<open>None\<close> when the program is built without
  \<open>XMLSEC_CRYPTO_DYNAMIC_LOADING\<close>.\<close>

definition main :: "env \<Rightarrow> string list \<Rightarrow> world \<Rightarrow> int \<times> world" where
  "main e argv w =
     (if int (length argv) \<noteq> 3 then
        (1, eprint (Usage (case argv of [] \<Rightarrow> None | a # _ \<Rightarrow> Some a)) (eprint Err_wrong_args w))
      else if xmlSecInit e < 0 then (- 1, eprint Err_xmlsec_init w)
      else if xmlSecCheckVersion e \<noteq> 1 then (- 1, eprint Err_xmlsec_version w)
      else if (case xmlSecCryptoDLLoadLibrary e of None \<Rightarrow> False | Some r \<Rightarrow> r < 0) then
        (- 1, eprint Err_crypto_dl w)
      else if xmlSecCryptoAppInit e < 0 then (- 1, eprint Err_crypto_app_init w)
      else if xmlSecCryptoInit e < 0 then (- 1, eprint Err_crypto_init w)
      else
        (case sign_file e (argv ! 1) (argv ! 2) w of
           (rc, w') \<Rightarrow> if rc < 0 then (- 1, w') else (0, w')))"

text \<open>The exit status the parent process reads: the low eight bits of what \<open>main\<close>
  returns.\<close>

definition exit_status :: "int \<Rightarrow> int" where
  "exit_status r = r mod 256"

section \<open>Observations on a run\<close>

text \<open>The documents serialised to the standard output (\<open>xmlDocDump\<close>), in order.\<close>

fun doc_dumps_of :: "out_event list \<Rightarrow> xmlDoc list" where
  "doc_dumps_of [] = []"
| "doc_dumps_of (DocDump d # es) = d # doc_dumps_of es"
| "doc_dumps_of (ev # es) = doc_dumps_of es"

definition doc_dumps :: "world \<Rightarrow> xmlDoc list" where
  "doc_dumps w = doc_dumps_of (stdout w)"





text \<open>The "unable to find node" diagnostics on the error stream, in order, each with the
  node name it prints.\<close>

fun find_node_errors_of :: "diag list \<Rightarrow> string list" where
  "find_node_errors_of [] = []"
| "find_node_errors_of (Err_find_node x # ms) = x # find_node_errors_of ms"
| "find_node_errors_of (m # ms) = find_node_errors_of ms"

definition find_node_errors :: "world \<Rightarrow> string list" where
  "find_node_errors w = find_node_errors_of (stderr w)"



section \<open>A reference behaviour of the libraries and example documents\<close>

text \<open>The nodes of a subtree in document order (pre-order), each with its position.\<close>

fun all_nodes :: "xmlNode \<Rightarrow> xmlNodePtr list"
  and all_nodes_list :: "xmlNode list \<Rightarrow> nat \<Rightarrow> xmlNodePtr list" where
  "all_nodes (XmlNode t nm nsp ps cs) = ([], XmlNode t nm nsp ps cs) # all_nodes_list cs 0"
| "all_nodes_list [] i = []"
| "all_nodes_list (c # cs) i =
     map (\<lambda>(p, n). (i # p, n)) (all_nodes c) @ all_nodes_list cs (Suc i)"

definition is_signature :: "xmlNode \<Rightarrow> bool" where
  "is_signature n \<longleftrightarrow> node_name n = xmlSecNodeSignature \<and> node_ns n = Some xmlSecDSigNs"

text \<open>One behaviour the libraries can have, used to run the program on examples: every
  allocation succeeds; a namespace prefix must not be empty; an identifier that is already
  in the table stays as it is; the query \<open>//sig:Signature\<close> gives the signature elements
  in document order; the key file \<open>key.pem\<close> exists; signing needs a key and a signature
  element.\<close>

definition example_xpath :: "string \<Rightarrow> xmlXPathContext \<Rightarrow> xmlXPathObject option" where
  "example_xpath expr ctx =
     (if expr \<noteq> ''//sig:Signature'' then None
      else
        (case nsHash ctx ''sig'' of
           None \<Rightarrow> None
         | Some uri \<Rightarrow>
             Some \<lparr>nodesetval = Some
               (case root (xp_doc ctx) of
                  None \<Rightarrow> []
                | Some r \<Rightarrow>
                    filter (\<lambda>pn. node_type (snd pn) = XML_ELEMENT_NODE
                               \<and> node_name (snd pn) = ''Signature''
                               \<and> node_ns (snd pn) = Some uri) (all_nodes r))\<rparr>))"

definition example_env :: "(string \<rightharpoonup> xmlDoc) \<Rightarrow> env" where
  "example_env files =
     \<lparr>strdup_ok = (\<lambda>s. True),
      xmlXPathRegisterNs = (\<lambda>ctx prefix href.
         if prefix = [] then (- 1, ctx) else (0, ctx\<lparr>nsHash := (nsHash ctx)(prefix \<mapsto> href)\<rparr>)),
      xmlNodeListGetString = (\<lambda>cs. if cs = [] then None else Some (concat cs)),
      xmlAddID = (\<lambda>tab name attr.
         case tab name of None \<Rightarrow> tab(name \<mapsto> attr) | Some old \<Rightarrow> tab),
      xmlReadFile = files,
      xmlXPathNewContext = (\<lambda>d. Some \<lparr>xp_doc = d, nsHash = Map.empty\<rparr>),
      xmlXPathEvalExpression = example_xpath,
      xmlSecDSigCtxCreate = (\<lambda>n. Some \<lparr>signKey = None\<rparr>),
      xmlSecCryptoAppKeyLoadEx = (\<lambda>f.
         if f = ''key.pem'' then Some \<lparr>key_data = ''RSA'', key_name = None\<rparr> else None),
      xmlSecKeySetName = (\<lambda>k n. (0, k\<lparr>key_name := Some n\<rparr>)),
      xmlSecDSigCtxSign = (\<lambda>ctx node doc.
         if signKey ctx = None \<or> \<not> is_signature (snd node) then (- 1, ctx, doc)
         else (0, ctx, doc)),
      xmlSecInit = 0,
      xmlSecCheckVersion = 1,
      xmlSecCryptoDLLoadLibrary = None,
      xmlSecCryptoAppInit = 0,
      xmlSecCryptoInit = 0\<rparr>"

definition id_attr :: "string \<Rightarrow> xmlAttr" where
  "id_attr v = \<lparr>attr_name = ''id'', attr_children = [v]\<rparr>"

definition signature_node :: xmlNode where
  "signature_node = XmlNode XML_ELEMENT_NODE ''Signature'' (Some xmlSecDSigNs) [] []"

definition certificate_node :: "string \<Rightarrow> xmlNode" where
  "certificate_node v =
     XmlNode XML_ELEMENT_NODE ''certificate'' (Some xmlSecNodeCertificatesNS) [id_attr v] []"

definition certificates_node :: "string \<Rightarrow> xmlNode list \<Rightarrow> xmlNode" where
  "certificates_node v cs =
     XmlNode XML_ELEMENT_NODE ''certificates'' (Some xmlSecNodeCertificatesNS) [id_attr v] cs"

definition stb :: "xmlNode list \<Rightarrow> xmlNode" where
  "stb cs = XmlNode XML_ELEMENT_NODE ''stb'' None [] cs"

definition doc_of :: "xmlNode list \<Rightarrow> xmlDoc" where
  "doc_of cs = \<lparr>root = Some (stb cs), ids = Map.empty\<rparr>"

text \<open>A template with a certificates container, one certificate and two signature
  templates.\<close>

definition template_doc :: xmlDoc where
  "template_doc =
     doc_of [certificates_node ''cs'' [certificate_node ''c1''], signature_node, signature_node]"

text \<open>A template whose only certificate node is outside the (empty) container.\<close>

definition outside_doc :: xmlDoc where
  "outside_doc = doc_of [certificate_node ''c0'', certificates_node ''cs'' [], signature_node]"

text \<open>A template without any signature node.\<close>

definition nosig_doc :: xmlDoc where
  "nosig_doc = doc_of [certificates_node ''cs'' [certificate_node ''c1'']]"

text \<open>A template with an empty container and no certificate node anywhere.\<close>

definition nocert_doc :: xmlDoc where
  "nocert_doc = doc_of [certificates_node ''cs'' [], signature_node]"


text \<open>A template whose container and certificate carry the same identifier.\<close>

definition dup_doc :: xmlDoc where
  "dup_doc = doc_of [certificates_node ''c1'' [certificate_node ''c1''], signature_node]"


definition example_files :: "string \<rightharpoonup> xmlDoc" where
  "example_files =
     [''tmpl.xml'' \<mapsto> template_doc, ''outside.xml'' \<mapsto> outside_doc,
      ''nosig.xml'' \<mapsto> nosig_doc, ''nocert.xml'' \<mapsto> nocert_doc,
      ''dup.xml'' \<mapsto> dup_doc]"

definition world0 :: world where
  "world0 = \<lparr>stdout = [], stderr = [], dsig_live = Map.empty, dsig_created = 0,
             engine_trace = []\<rparr>"

definition ctx0 :: xmlXPathContext where
  "ctx0 = \<lparr>xp_doc = template_doc, nsHash = Map.empty\<rparr>"

section \<open>The binding-list parser\<close>

declare register_namespaces_loop.simps [simp del]

lemma xmlStrchr_length: "xmlStrchr s c = Some t \<Longrightarrow> length (tl t) < length s"
proof -
  assume a: "xmlStrchr s c = Some t"
  then have t: "t = dropWhile (\<lambda>x. x \<noteq> c) s" and c: "c \<in> set s"
    by (auto simp: xmlStrchr_def split: if_splits)
  from c have "t \<noteq> []" by (simp add: t dropWhile_eq_Nil_conv)
  then have "length (tl t) < length t" by (cases t) auto
  also have "length t \<le> length s" by (simp add: t length_dropWhile_le)
  finally show ?thesis .
qed

lemma loop_decreases:
  assumes "xmlStrchr (dropWhile P s) c = Some eq" and "xmlStrchr (tl eq) d = Some sp"
  shows "length (tl sp) < length s"
proof -
  have "length (tl sp) < length (tl eq)" using assms(2) by (rule xmlStrchr_length)
  also have "length (tl eq) < length (dropWhile P s)" using assms(1) by (rule xmlStrchr_length)
  also have "length (dropWhile P s) \<le> length s" by (rule length_dropWhile_le)
  finally show ?thesis .
qed

lemma last_dropWhile: "dropWhile P xs \<noteq> [] \<Longrightarrow> last (dropWhile P xs) = last xs"
  by (induction xs) (auto split: if_splits)

lemma dropWhile_neq_Cons:
  assumes "x \<in> set xs"
  shows "\<exists>ys. dropWhile (\<lambda>y. y \<noteq> x) xs = x # ys \<and> last (x # ys) = last xs"
proof -
  have ne: "dropWhile (\<lambda>y. y \<noteq> x) xs \<noteq> []" using assms by (simp add: dropWhile_eq_Nil_conv)
  then have "hd (dropWhile (\<lambda>y. y \<noteq> x) xs) = x" using hd_dropWhile [of "\<lambda>y. y \<noteq> x" xs] by simp
  with ne obtain ys where "dropWhile (\<lambda>y. y \<noteq> x) xs = x # ys"
    by (cases "dropWhile (\<lambda>y. y \<noteq> x) xs") auto
  moreover from this have "last (x # ys) = last xs" using last_dropWhile [OF ne] by simp
  ultimately show ?thesis by blast
qed

lemma loop_only_spaces:
  "set s \<subseteq> {CHR '' ''} \<Longrightarrow> register_namespaces_loop e xpathCtx s w = (0, xpathCtx, w)"
  by (subst register_namespaces_loop.simps) (auto simp: dropWhile_eq_Nil_conv Let_def)

lemma skip_spaces_token:
  assumes "c \<noteq> CHR '' ''" and "pre = [] \<or> last pre = CHR '' ''"
  shows "\<exists>pre'. dropWhile (\<lambda>x. x = CHR '' '') (pre @ c # rest) = pre' @ c # rest
           \<and> (pre' = [] \<or> last pre' = CHR '' '')"
proof (cases "\<forall>x\<in>set pre. x = CHR '' ''")
  case True
  then have "dropWhile (\<lambda>x. x = CHR '' '') (pre @ c # rest) = [] @ c # rest"
    using assms(1) by (simp add: dropWhile_append)
  then show ?thesis by blast
next
  case False
  then have ne: "dropWhile (\<lambda>x. x = CHR '' '') pre \<noteq> []" by (simp add: dropWhile_eq_Nil_conv)
  have "dropWhile (\<lambda>x. x = CHR '' '') (pre @ c # rest) = dropWhile (\<lambda>x. x = CHR '' '') pre @ c # rest"
    using False by (auto simp: dropWhile_append)
  moreover have "last (dropWhile (\<lambda>x. x = CHR '' '') pre) = CHR '' ''"
    using ne assms(2) last_dropWhile [OF ne] by auto
  ultimately show ?thesis by blast
qed

lemma loop_rejects:
  assumes "s = pre @ c # rest" and "c \<noteq> CHR '' ''" and "pre = [] \<or> last pre = CHR '' ''"
    and "CHR ''='' \<notin> set (c # rest)"
  shows "fst (register_namespaces_loop e xpathCtx s w) = - 1"
  using assms
proof (induction "length s" arbitrary: s pre xpathCtx rule: less_induct)
  case less
  let ?sp = "\<lambda>x. x = CHR '' ''"
  obtain pre1 where n1: "dropWhile ?sp s = pre1 @ c # rest"
    and p1: "pre1 = [] \<or> last pre1 = CHR '' ''"
    using skip_spaces_token [OF less.prems(2,3)] less.prems(1) by blast
  have ne: "dropWhile ?sp s \<noteq> []" by (simp add: n1)
  show ?case
  proof (cases "xmlStrchr (dropWhile ?sp s) (CHR ''='')")
    case None
    then show ?thesis
      using ne by (subst register_namespaces_loop.simps) (simp add: Let_def)
  next
    case (Some eq)
    then have eqin: "CHR ''='' \<in> set (pre1 @ c # rest)"
      and eq: "eq = dropWhile (\<lambda>x. x \<noteq> CHR ''='') (pre1 @ c # rest)"
      by (auto simp: xmlStrchr_def n1 split: if_splits)
    from eqin less.prems(4) have inpre: "CHR ''='' \<in> set pre1" by auto
    then have pre1_ne: "pre1 \<noteq> []" and last1: "last pre1 = CHR '' ''" using p1 by auto
    from inpre obtain h1 where h1: "dropWhile (\<lambda>x. x \<noteq> CHR ''='') pre1 = CHR ''='' # h1"
      and h1l: "last (CHR ''='' # h1) = last pre1"
      using dropWhile_neq_Cons [of "CHR ''=''" pre1] by auto
    from h1l last1 have h1_ne: "h1 \<noteq> []" and h1_last: "last h1 = CHR '' ''" by (auto split: if_splits)
    have tleq: "tl eq = h1 @ c # rest"
      using inpre h1 by (auto simp: eq dropWhile_append)
    have spin: "CHR '' '' \<in> set h1" using h1_ne h1_last last_in_set [of h1] by simp
    then obtain h2 where h2: "dropWhile (\<lambda>x. x \<noteq> CHR '' '') h1 = CHR '' '' # h2"
      and h2l: "last (CHR '' '' # h2) = last h1"
      using dropWhile_neq_Cons [of "CHR '' ''" h1] by auto
    have sp: "xmlStrchr (tl eq) (CHR '' '') = Some (CHR '' '' # h2 @ c # rest)"
      using spin h2 by (auto simp: xmlStrchr_def tleq dropWhile_append)
    have len: "length (h2 @ c # rest) < length s"
      using loop_decreases [OF Some sp] by simp
    have rec: "fst (register_namespaces_loop e ctx' (h2 @ c # rest) w) = - 1" for ctx'
      by (rule less.hyps [OF len refl less.prems(2) _ less.prems(4)]) (use h2l h1_last in \<open>auto split: if_splits\<close>)
    show ?thesis
      using ne Some sp rec
      by (subst register_namespaces_loop.simps) (simp add: Let_def split: prod.splits)
  qed
qed

lemma loop_single_binding:
  assumes "p \<noteq> []" and "hd p \<noteq> CHR '' ''" and "CHR ''='' \<notin> set p" and "CHR '' '' \<notin> set h"
  shows "register_namespaces_loop e xpathCtx (p @ CHR ''='' # h) w =
     (case xmlXPathRegisterNs e xpathCtx p h of
        (rc, xpathCtx') \<Rightarrow>
          if rc \<noteq> 0 then (- 1, xpathCtx', eprint (Err_register_ns p h) w) else (0, xpathCtx', w))"
proof -
  let ?s = "p @ CHR ''='' # h"
  have n1: "dropWhile (\<lambda>x. x = CHR '' '') ?s = ?s" using assms(1,2) by (cases p) auto
  have eq: "xmlStrchr ?s (CHR ''='') = Some (CHR ''='' # h)"
    using assms(3) by (auto simp: xmlStrchr_def dropWhile_append)
  have pre: "str_until (CHR ''='') ?s = p"
    using assms(3) by (auto simp: str_until_def takeWhile_append intro: takeWhile_eq_all_conv [THEN iffD2])
  have href: "str_until (CHR '' '') h = h"
    using assms(4) by (auto simp: str_until_def intro: takeWhile_eq_all_conv [THEN iffD2])
  have sp: "xmlStrchr h (CHR '' '') = None" using assms(4) by (simp add: xmlStrchr_def)
  show ?thesis
    using assms(1)
    by (subst register_namespaces_loop.simps) (simp add: n1 eq pre href sp Let_def split: prod.splits)
qed


text \<open>C9. A binding list that is empty or consists of space characters only is accepted:
  when the copy of the list is allocated, \<open>register_namespaces\<close> returns 0, makes no call
  to the registration (the context is returned as it was), and prints nothing.\<close>

theorem register_namespaces_blank:
  assumes "set bindings \<subseteq> {CHR '' ''}" and "strdup_ok e bindings"
  shows "register_namespaces e xpathCtx bindings w = (0, xpathCtx, w)"
  using assms by (simp add: register_namespaces_def xmlStrdup_def loop_only_spaces)

theorem register_namespaces_blank_witness:
  "set ''   '' \<subseteq> {CHR '' ''} \<and> strdup_ok (example_env example_files) ''   '' \<and>
   register_namespaces (example_env example_files) ctx0 ''   '' world0 = (0, ctx0, world0) \<and>
   register_namespaces (example_env example_files) ctx0 [] world0 = (0, ctx0, world0)"
  using register_namespaces_blank [of "''   ''" "example_env example_files" ctx0 world0]
    register_namespaces_blank [of "[]" "example_env example_files" ctx0 world0]
  by (simp add: example_env_def)

text \<open>C4. A binding list with a non-empty token (a maximal run of characters other than
  the space) from whose start on there is no \<open>=\<close> in the input is rejected:
  \<open>register_namespaces\<close> returns -1, whatever the libraries do. The witness is the input
  \<open>sig http://example\<close>.\<close>

theorem register_namespaces_rejects:
  assumes "bindings = pre @ tok @ rest"
    and "tok \<noteq> []" and "CHR '' '' \<notin> set tok"
    and "pre = [] \<or> last pre = CHR '' ''"
    and "rest = [] \<or> hd rest = CHR '' ''"
    and "CHR ''='' \<notin> set (tok @ rest)"
  shows "fst (register_namespaces e xpathCtx bindings w) = - 1"
proof (cases "strdup_ok e bindings")
  case False
  then show ?thesis by (simp add: register_namespaces_def xmlStrdup_def)
next
  case True
  from assms(2) obtain c tok' where tok: "tok = c # tok'" by (cases tok) auto
  have "fst (register_namespaces_loop e xpathCtx bindings w) = - 1"
    using assms(3,6) by (intro loop_rejects [OF _ _ assms(4), of _ c "tok' @ rest"])
      (auto simp: assms(1) tok)
  with True show ?thesis by (simp add: register_namespaces_def xmlStrdup_def)
qed

theorem register_namespaces_rejects_witness:
  "fst (register_namespaces (example_env example_files) ctx0 ''sig http://example'' world0) = - 1"
  using register_namespaces_rejects [of "''sig http://example''" "[]" "''sig''"
      "'' http://example''" "example_env example_files" ctx0 world0]
  by simp

text \<open>C10. The search for \<open>=\<close> is not bounded by the token: when the first token \<open>a\<close> has
  no \<open>=\<close> and a later part of the input has the first one, as in \<open>a b=c\<close>, the parser
  makes one registration, with the prefix from the start of the first token to that \<open>=\<close>,
  the space included, and accepts the list exactly when this registration is accepted.
  With a library that accepts every non-empty prefix the input \<open>a b=c\<close> returns 0 and binds
  the prefix \<open>a b\<close> to \<open>c\<close>.\<close>

theorem register_namespaces_prefix_spans_tokens:
  assumes "a \<noteq> []" and "CHR '' '' \<notin> set a" and "CHR ''='' \<notin> set a"
    and "CHR ''='' \<notin> set m" and "CHR '' '' \<notin> set h"
    and "strdup_ok e (a @ CHR '' '' # m @ CHR ''='' # h)"
  shows "register_namespaces e xpathCtx (a @ CHR '' '' # m @ CHR ''='' # h) w =
     (case xmlXPathRegisterNs e xpathCtx (a @ CHR '' '' # m) h of
        (rc, xpathCtx') \<Rightarrow>
          if rc \<noteq> 0 then (- 1, xpathCtx', eprint (Err_register_ns (a @ CHR '' '' # m) h) w)
          else (0, xpathCtx', w))"
proof -
  have "hd (a @ CHR '' '' # m) \<noteq> CHR '' ''" using assms(1,2) by (cases a) auto
  then have "register_namespaces_loop e xpathCtx ((a @ CHR '' '' # m) @ CHR ''='' # h) w =
     (case xmlXPathRegisterNs e xpathCtx (a @ CHR '' '' # m) h of
        (rc, xpathCtx') \<Rightarrow>
          if rc \<noteq> 0 then (- 1, xpathCtx', eprint (Err_register_ns (a @ CHR '' '' # m) h) w)
          else (0, xpathCtx', w))"
    using assms(3,4,5) by (intro loop_single_binding) auto
  then show ?thesis using assms(6) by (simp add: register_namespaces_def xmlStrdup_def)
qed

theorem register_namespaces_prefix_spans_tokens_witness:
  "register_namespaces (example_env example_files) ctx0 ''a b=c'' world0 =
     (0, ctx0\<lparr>nsHash := [''a b'' \<mapsto> ''c'']\<rparr>, world0)"
  using register_namespaces_prefix_spans_tokens [of "''a''" "''b''" "''c''"
      "example_env example_files" ctx0 world0]
  by (simp add: example_env_def ctx0_def)

section \<open>Identifier registration\<close>

lemma RegisterID_keeps_root: "root (fst (snd (RegisterID e node idName doc w))) = root doc"
  by (simp add: RegisterID_def split: option.splits)

lemma RegisterID_result: "fst (RegisterID e node idName doc w) = 0 \<or> fst (RegisterID e node idName doc w) = - 1"
  by (simp add: RegisterID_def split: option.splits)

lemma RegisterID_keeps_world:
  "stdout (snd (snd (RegisterID e node idName doc w))) = stdout w"
  "engine_trace (snd (snd (RegisterID e node idName doc w))) = engine_trace w"
  "dsig_live (snd (snd (RegisterID e node idName doc w))) = dsig_live w"
  "dsig_created (snd (snd (RegisterID e node idName doc w))) = dsig_created w"
  by (simp_all add: RegisterID_def eprint_def split: option.splits)

section \<open>Signing the nodes of the result set\<close>

lemma doc_dumps_of_append: "doc_dumps_of (xs @ ys) = doc_dumps_of xs @ doc_dumps_of ys"
  by (induction xs rule: doc_dumps_of.induct) simp_all



lemma do_sign_node_dumps:
  "doc_dumps (snd (snd (do_sign_node e node key_file doc w))) = doc_dumps w"
  by (simp add: do_sign_node_def Let_def doc_dumps_def eprint_def print_def trace_def destroy_def
      doc_dumps_of_append split: option.splits prod.splits)







lemma sign_nodes_dumps:
  "doc_dumps (snd (snd (sign_nodes e nodeTab key_file doc w))) = doc_dumps w"
proof (induction nodeTab arbitrary: doc w)
  case Nil
  show ?case by simp
next
  case (Cons cur rest)
  obtain rc doc' w' where d: "do_sign_node e cur key_file doc w = (rc, doc', w')"
    by (cases "do_sign_node e cur key_file doc w") auto
  have "doc_dumps w' = doc_dumps w" using do_sign_node_dumps [of e cur key_file doc w] d by simp
  then show ?case using Cons.IH d by (simp add: doc_dumps_def eprint_def)
qed






lemma sign_all_nodes_result:
  "fst (sign_all_nodes e tmpl_file key_file doc xpathObj w) = 0
   \<or> fst (sign_all_nodes e tmpl_file key_file doc xpathObj w) = - 1"
  by (simp add: sign_all_nodes_def Let_def split: option.splits prod.splits)

lemma sign_all_nodes_dumps:
  "\<exists>d. doc_dumps (snd (sign_all_nodes e tmpl_file key_file doc xpathObj w)) =
     doc_dumps w @ (if fst (sign_all_nodes e tmpl_file key_file doc xpathObj w) = 0 then [d] else [])"
proof -
  let ?tab = "case nodesetval xpathObj of None \<Rightarrow> [] | Some tab \<Rightarrow> tab"
  obtain rc doc' w' where s: "sign_nodes e ?tab key_file doc w = (rc, doc', w')"
    by (cases "sign_nodes e ?tab key_file doc w") auto
  have "doc_dumps w' = doc_dumps w" using sign_nodes_dumps [of e ?tab key_file doc w] s by simp
  then show ?thesis using s
    by (auto simp: sign_all_nodes_def Let_def doc_dumps_def eprint_def print_def doc_dumps_of_append
        split: option.splits)
qed





section \<open>The driver\<close>

lemma RegisterID_E:
  assumes "RegisterID e node idName doc w = (rc, doc', w')"
  shows "root doc' = root doc" and "doc_dumps w' = doc_dumps w" and "rc = 0 \<or> rc = - 1"
  using assms RegisterID_keeps_root [of e node idName doc w]
    RegisterID_keeps_world(1) [of e node idName doc w] RegisterID_result [of e node idName doc w]
  by (simp_all add: doc_dumps_def)

lemma register_namespaces_loop_stdout:
  "stdout (snd (snd (register_namespaces_loop e xpathCtx s w))) = stdout w"
proof (induction e xpathCtx s w rule: register_namespaces_loop.induct)
  case (1 e xpathCtx next0 w)
  show ?case
    by (subst register_namespaces_loop.simps)
      (auto simp: Let_def eprint_def "1.IH" split: option.splits prod.splits)
qed

lemma register_namespaces_E:
  assumes "register_namespaces e xpathCtx s w = (rc, xpathCtx', w')"
  shows "doc_dumps w' = doc_dumps w"
  using assms register_namespaces_loop_stdout [of e xpathCtx s w]
  by (auto simp: register_namespaces_def xmlStrdup_def doc_dumps_def eprint_def split: if_splits)

lemma print_xpath_nodes_dumps: "doc_dumps (print_xpath_nodes nodes w) = doc_dumps w"
proof -
  have "doc_dumps_of (map node_line tab) = []" for tab
    by (induction tab) (auto simp: node_line_def)
  then show ?thesis
    by (simp add: print_xpath_nodes_def print_def doc_dumps_def doc_dumps_of_append Let_def)
qed

lemma sign_all_nodes_no_anchor:
  assumes "root doc = Some r" and "xmlSecFindNode r xmlSecNodeSignature xmlSecDSigNs = None"
  shows "sign_all_nodes e tmpl_file key_file doc xpathObj w = (- 1, eprint (Err_start_node tmpl_file) w)"
  using assms by (simp add: sign_all_nodes_def)

lemma doc_dumps_eprint: "doc_dumps (eprint m w) = doc_dumps w"
  by (simp add: doc_dumps_def eprint_def)

lemma sign_file_fail_or_tail:
  "fst (sign_file e tmpl_file key_file w) = - 1
     \<and> doc_dumps (snd (sign_file e tmpl_file key_file w)) = doc_dumps w
   \<or> (\<exists>doc r certsNode certNode doc2 xpathObj w3.
        xmlReadFile e tmpl_file = Some doc \<and> root doc = Some r
        \<and> xmlSecFindNode r xmlSecNodeCertificates xmlSecNodeCertificatesNS = Some certsNode
        \<and> xmlSecFindNode r ''certificate'' xmlSecNodeCertificatesNS = Some certNode
        \<and> root doc2 = Some r \<and> doc_dumps w3 = doc_dumps w
        \<and> sign_file e tmpl_file key_file w = sign_all_nodes e tmpl_file key_file doc2 xpathObj w3)"
proof (cases "xmlReadFile e tmpl_file")
  case None
  then show ?thesis by (simp add: sign_file_def doc_dumps_eprint)
next
  case doc: (Some doc)
  show ?thesis
  proof (cases "root doc")
    case None
    with doc show ?thesis by (simp add: sign_file_def doc_dumps_eprint)
  next
    case r: (Some r)
    show ?thesis
    proof (cases "xmlSecFindNode r xmlSecNodeCertificates xmlSecNodeCertificatesNS")
      case None
      with doc r show ?thesis by (simp add: sign_file_def doc_dumps_eprint)
    next
      case certs: (Some certsNode)
      obtain rc1 doc1 w1 where reg1: "RegisterID e certsNode ''id'' doc w = (rc1, doc1, w1)"
        by (cases "RegisterID e certsNode ''id'' doc w") auto
      note f1 = RegisterID_E [OF reg1]
      show ?thesis
      proof (cases "rc1 < 0")
        case True
        with doc r certs reg1 f1 show ?thesis by (simp add: sign_file_def doc_dumps_eprint)
      next
        case nonneg1: False
        show ?thesis
        proof (cases "xmlSecFindNode r ''certificate'' xmlSecNodeCertificatesNS")
          case None
          with doc r certs reg1 f1 nonneg1 show ?thesis
            by (simp add: sign_file_def doc_dumps_eprint)
        next
          case cert: (Some certNode)
          obtain rc2 doc2 w2 where reg2: "RegisterID e certNode ''id'' doc1 w1 = (rc2, doc2, w2)"
            by (cases "RegisterID e certNode ''id'' doc1 w1") auto
          note f2 = RegisterID_E [OF reg2]
          show ?thesis
          proof (cases "rc2 < 0")
            case True
            with doc r certs reg1 f1 nonneg1 cert reg2 f2 show ?thesis
              by (simp add: sign_file_def doc_dumps_eprint)
          next
            case nonneg2: False
            show ?thesis
            proof (cases "xmlXPathNewContext e doc2")
              case None
              with doc r certs reg1 f1 nonneg1 cert reg2 f2 nonneg2 show ?thesis
                by (simp add: sign_file_def doc_dumps_eprint)
            next
              case ctx: (Some xpathCtx)
              obtain rc3 xpathCtx' w3 where
                ns: "register_namespaces e xpathCtx nsList w2 = (rc3, xpathCtx', w3)"
                by (cases "register_namespaces e xpathCtx nsList w2") auto
              note f3 = register_namespaces_E [OF ns]
              show ?thesis
              proof (cases "rc3 < 0")
                case True
                with doc r certs reg1 f1 nonneg1 cert reg2 f2 nonneg2 ctx ns f3 show ?thesis
                  by (simp add: sign_file_def doc_dumps_eprint)
              next
                case nonneg3: False
                show ?thesis
                proof (cases "xmlXPathEvalExpression e xpathExpr xpathCtx'")
                  case None
                  with doc r certs reg1 f1 nonneg1 cert reg2 f2 nonneg2 ctx ns f3 nonneg3
                  show ?thesis by (simp add: sign_file_def doc_dumps_eprint)
                next
                  case xo: (Some xpathObj)
                  have "sign_file e tmpl_file key_file w =
                      sign_all_nodes e tmpl_file key_file doc2 xpathObj
                        (print_xpath_nodes (nodesetval xpathObj) w3)"
                    using doc r certs reg1 nonneg1 cert reg2 nonneg2 ctx ns nonneg3 xo
                    by (simp add: sign_file_def)
                  moreover have "doc_dumps (print_xpath_nodes (nodesetval xpathObj) w3) = doc_dumps w"
                    using f1(2) f2(2) f3 by (simp add: print_xpath_nodes_dumps)
                  moreover have "root doc2 = Some r" using f1(1) f2(1) r by simp
                  ultimately show ?thesis using doc r certs cert by blast
                qed
              qed
            qed
          qed
        qed
      qed
    qed
  qed
qed

lemma sign_file_result:
  "fst (sign_file e tmpl_file key_file w) = 0 \<or> fst (sign_file e tmpl_file key_file w) = - 1"
  using sign_file_fail_or_tail [of e tmpl_file key_file w] sign_all_nodes_result
  by (elim disjE exE conjE) (simp, metis)

lemma sign_file_dumps:
  "\<exists>d. doc_dumps (snd (sign_file e tmpl_file key_file w)) =
     doc_dumps w @ (if fst (sign_file e tmpl_file key_file w) = 0 then [d] else [])"
  using sign_file_fail_or_tail [of e tmpl_file key_file w]
proof (elim disjE exE conjE)
  assume "fst (sign_file e tmpl_file key_file w) = - 1"
    and "doc_dumps (snd (sign_file e tmpl_file key_file w)) = doc_dumps w"
  then show ?thesis by simp
next
  fix doc2 xpathObj w3
  assume "doc_dumps w3 = doc_dumps w"
    and "sign_file e tmpl_file key_file w = sign_all_nodes e tmpl_file key_file doc2 xpathObj w3"
  then show ?thesis using sign_all_nodes_dumps [of e tmpl_file key_file doc2 xpathObj w3] by simp
qed

lemma find_None_iff:
  "xmlSecFindNode n name ns = None \<longleftrightarrow>
     (\<forall>x \<in> snd ` set (all_nodes n). \<not> (node_name x = name \<and> node_ns x = Some ns))"
  "find_in_children cs i name ns = None \<longleftrightarrow>
     (\<forall>x \<in> snd ` set (all_nodes_list cs i). \<not> (node_name x = name \<and> node_ns x = Some ns))"
proof (induction n name ns and cs i name ns rule: xmlSecFindNode_find_in_children.induct)
  case (1 t nm nsp ps cs name ns)
  then show ?case by auto
next
  case (2 i name ns)
  show ?case by simp
next
  case (3 c cs i name ns)
  have img: "snd ` set (map (\<lambda>(p, n). (i # p, n)) (all_nodes c)) = snd ` set (all_nodes c)"
    by force
  show ?case
  proof (cases "xmlSecFindNode c name ns")
    case None
    with 3 show ?thesis by (simp add: ball_Un case_prod_beta)
  next
    case (Some pn)
    with "3.IH"(1) show ?thesis by (auto simp: ball_Un case_prod_beta)
  qed
qed

lemma register_namespaces_nsList:
  assumes "strdup_ok e nsList"
  shows "register_namespaces e xpathCtx nsList w =
     (case xmlXPathRegisterNs e xpathCtx ''sig'' ''http://www.w3.org/2000/09/xmldsig#'' of
        (rc, xpathCtx') \<Rightarrow>
          if rc \<noteq> 0 then
            (- 1, xpathCtx',
             eprint (Err_register_ns ''sig'' ''http://www.w3.org/2000/09/xmldsig#'') w)
          else (0, xpathCtx', w))"
proof -
  have "nsList = ''sig'' @ CHR ''='' # ''http://www.w3.org/2000/09/xmldsig#''"
    by (simp add: nsList_def)
  moreover have "register_namespaces_loop e xpathCtx
      (''sig'' @ CHR ''='' # ''http://www.w3.org/2000/09/xmldsig#'') w =
     (case xmlXPathRegisterNs e xpathCtx ''sig'' ''http://www.w3.org/2000/09/xmldsig#'' of
        (rc, xpathCtx') \<Rightarrow>
          if rc \<noteq> 0 then
            (- 1, xpathCtx',
             eprint (Err_register_ns ''sig'' ''http://www.w3.org/2000/09/xmldsig#'') w)
          else (0, xpathCtx', w))"
    by (rule loop_single_binding) simp_all
  ultimately show ?thesis using assms by (simp add: register_namespaces_def xmlStrdup_def)
qed

lemmas example_defs =
  example_env_def example_files_def example_xpath_def template_doc_def outside_doc_def
  nosig_doc_def nocert_doc_def dup_doc_def doc_of_def stb_def certificates_node_def certificate_node_def
  signature_node_def id_attr_def world0_def xmlSecNodeCertificates_def
  xmlSecNodeCertificatesNS_def xmlSecNodeSignature_def xmlSecDSigNs_def xpathExpr_def
  is_signature_def

lemmas run_defs =
  sign_file_def RegisterID_def xmlHasProp_def print_xpath_nodes_def node_line_def
  sign_all_nodes_def do_sign_node_def trace_def destroy_def print_def eprint_def Let_def

text \<open>C6. When the parsed document has no signature node (no node named \<open>Signature\<close> in
  the signature namespace anywhere under its root), the run returns -1 and serialises no
  document. When the run gets as far as the search for the first signature node, with the
  document in any state with this root and any query result, it ends there with the
  diagnostic "start node not found".\<close>

theorem sign_file_no_signature_template:
  assumes "xmlReadFile e tmpl_file = Some doc" and "root doc = Some r"
    and "\<forall>pn \<in> set (all_nodes r). \<not> is_signature (snd pn)"
  shows "fst (sign_file e tmpl_file key_file w) = - 1
     \<and> doc_dumps (snd (sign_file e tmpl_file key_file w)) = doc_dumps w
     \<and> (root d = Some r \<longrightarrow>
          sign_all_nodes e tmpl_file key_file d xpathObj w' =
            (- 1, eprint (Err_start_node tmpl_file) w'))"
proof -
  have none: "xmlSecFindNode r xmlSecNodeSignature xmlSecDSigNs = None"
    using assms(3) by (auto simp: find_None_iff is_signature_def)
  from sign_file_fail_or_tail [of e tmpl_file key_file w]
  have "fst (sign_file e tmpl_file key_file w) = - 1
     \<and> doc_dumps (snd (sign_file e tmpl_file key_file w)) = doc_dumps w"
  proof (elim disjE exE conjE)
    assume "fst (sign_file e tmpl_file key_file w) = - 1"
      and "doc_dumps (snd (sign_file e tmpl_file key_file w)) = doc_dumps w"
    then show ?thesis by simp
  next
    fix doc0 r0 doc2 xpathObj0 w3
    assume "xmlReadFile e tmpl_file = Some doc0" and "root doc0 = Some r0"
      and "root doc2 = Some r0" and dumps: "doc_dumps w3 = doc_dumps w"
      and run: "sign_file e tmpl_file key_file w =
        sign_all_nodes e tmpl_file key_file doc2 xpathObj0 w3"
    with assms(1,2) have "root doc2 = Some r" by simp
    then have "sign_all_nodes e tmpl_file key_file doc2 xpathObj0 w3 =
        (- 1, eprint (Err_start_node tmpl_file) w3)"
      using none by (rule sign_all_nodes_no_anchor)
    with run dumps show ?thesis by (simp add: doc_dumps_eprint)
  qed
  moreover have "root d = Some r \<longrightarrow>
      sign_all_nodes e tmpl_file key_file d xpathObj w' = (- 1, eprint (Err_start_node tmpl_file) w')"
    using none by (auto intro: sign_all_nodes_no_anchor)
  ultimately show ?thesis by blast
qed

theorem sign_file_no_signature_template_witness:
  "fst (sign_file (example_env example_files) ''nosig.xml'' ''key.pem'' world0) = - 1
   \<and> doc_dumps (snd (sign_file (example_env example_files) ''nosig.xml'' ''key.pem'' world0)) = []
   \<and> stderr (snd (sign_file (example_env example_files) ''nosig.xml'' ''key.pem'' world0)) =
       [Err_start_node ''nosig.xml'']"
proof -
  have "\<forall>pn \<in> set (all_nodes (stb [certificates_node ''cs'' [certificate_node ''c1'']])).
      \<not> is_signature (snd pn)"
    by (simp add: stb_def certificates_node_def certificate_node_def is_signature_def
        xmlSecNodeSignature_def)
  then have "fst (sign_file (example_env example_files) ''nosig.xml'' ''key.pem'' world0) = - 1
     \<and> doc_dumps (snd (sign_file (example_env example_files) ''nosig.xml'' ''key.pem'' world0)) =
         doc_dumps world0"
    using sign_file_no_signature_template [of "example_env example_files" "''nosig.xml''"
        nosig_doc "stb [certificates_node ''cs'' [certificate_node ''c1'']]" "''key.pem''" world0]
    by (simp add: example_env_def example_files_def nosig_doc_def doc_of_def)
  moreover have "stderr (snd (sign_file (example_env example_files) ''nosig.xml'' ''key.pem''
      world0)) = [Err_start_node ''nosig.xml'']"
    by (simp add: run_defs example_defs register_namespaces_nsList)
  ultimately show ?thesis by (simp add: doc_dumps_def world0_def)
qed

text \<open>The claim C2 as stated fails: in this template the container, found at position 1, has
  no certificate node inside; the only certificate node is at position 0, before the
  container. The run registers the identifier of that node and succeeds.\<close>

theorem certificate_outside_container_counterexample:
  "xmlReadFile (example_env example_files) ''outside.xml'' = Some outside_doc
   \<and> root outside_doc =
       Some (stb [certificate_node ''c0'', certificates_node ''cs'' [], signature_node])
   \<and> xmlSecFindNode (stb [certificate_node ''c0'', certificates_node ''cs'' [], signature_node])
       xmlSecNodeCertificates xmlSecNodeCertificatesNS = Some ([1], certificates_node ''cs'' [])
   \<and> xmlSecFindNode (certificates_node ''cs'' []) ''certificate'' xmlSecNodeCertificatesNS = None
   \<and> fst (sign_file (example_env example_files) ''outside.xml'' ''key.pem'' world0) = 0
   \<and> ids (hd (doc_dumps (snd (sign_file (example_env example_files) ''outside.xml'' ''key.pem''
         world0)))) ''c0'' = Some ([0], id_attr ''c0'')"
  by (simp add: run_defs example_defs register_namespaces_nsList doc_dumps_def)

text \<open>C7. \<open>main\<close> returns 0 exactly when there are two arguments, every initialisation
  succeeds and \<open>sign_file\<close> returns 0, which it does exactly when it has serialised the
  signed document. With a wrong number of arguments it returns 1; every other failure
  returns -1, which the parent process reads as 255.\<close>

theorem main_exit_code:
  "(fst (main e argv w) = 0 \<longleftrightarrow>
      length argv = 3 \<and> 0 \<le> xmlSecInit e \<and> xmlSecCheckVersion e = 1
      \<and> (\<forall>r. xmlSecCryptoDLLoadLibrary e = Some r \<longrightarrow> 0 \<le> r)
      \<and> 0 \<le> xmlSecCryptoAppInit e \<and> 0 \<le> xmlSecCryptoInit e
      \<and> fst (sign_file e (argv ! 1) (argv ! 2) w) = 0)
   \<and> (fst (sign_file e tmpl_file key_file w) = 0 \<longleftrightarrow>
        length (doc_dumps (snd (sign_file e tmpl_file key_file w))) = Suc (length (doc_dumps w)))
   \<and> (length argv \<noteq> 3 \<longrightarrow>
        fst (main e argv w) = 1 \<and> exit_status (fst (main e argv w)) = 1)
   \<and> (length argv = 3 \<and> fst (main e argv w) \<noteq> 0 \<longrightarrow>
        fst (main e argv w) = - 1 \<and> exit_status (fst (main e argv w)) = 255)"
proof (intro conjI)
  have sf: "fst (sign_file e (argv ! 1) (argv ! 2) w) = 0
      \<or> fst (sign_file e (argv ! 1) (argv ! 2) w) = - 1"
    by (rule sign_file_result)
  show "fst (main e argv w) = 0 \<longleftrightarrow>
      length argv = 3 \<and> 0 \<le> xmlSecInit e \<and> xmlSecCheckVersion e = 1
      \<and> (\<forall>r. xmlSecCryptoDLLoadLibrary e = Some r \<longrightarrow> 0 \<le> r)
      \<and> 0 \<le> xmlSecCryptoAppInit e \<and> 0 \<le> xmlSecCryptoInit e
      \<and> fst (sign_file e (argv ! 1) (argv ! 2) w) = 0"
    using sf by (auto simp: main_def split: prod.splits option.splits)
  show "fst (sign_file e tmpl_file key_file w) = 0 \<longleftrightarrow>
      length (doc_dumps (snd (sign_file e tmpl_file key_file w))) = Suc (length (doc_dumps w))"
    using sign_file_dumps [of e tmpl_file key_file w] by (auto split: if_splits)
  show "length argv \<noteq> 3 \<longrightarrow> fst (main e argv w) = 1 \<and> exit_status (fst (main e argv w)) = 1"
    by (simp add: main_def exit_status_def)
  show "length argv = 3 \<and> fst (main e argv w) \<noteq> 0 \<longrightarrow>
      fst (main e argv w) = - 1 \<and> exit_status (fst (main e argv w)) = 255"
    by (auto simp: main_def exit_status_def split: prod.splits option.splits if_splits)
qed

theorem main_exit_code_witness:
  "fst (main (example_env example_files) [''sign1'', ''tmpl.xml'', ''key.pem''] world0) = 0
   \<and> fst (main (example_env example_files) [''sign1'', ''tmpl.xml''] world0) = 1
   \<and> fst (main (example_env example_files) [''sign1'', ''nosig.xml'', ''key.pem''] world0) = - 1
   \<and> exit_status (fst (main (example_env example_files) [''sign1'', ''nosig.xml'', ''key.pem'']
        world0)) = 255"
proof -
  let ?e = "example_env example_files"
  have ok: "fst (sign_file ?e ''tmpl.xml'' ''key.pem'' world0) = 0"
    by (simp add: run_defs example_defs register_namespaces_nsList)
  have bad: "fst (sign_file ?e ''nosig.xml'' ''key.pem'' world0) = - 1"
    by (simp add: run_defs example_defs register_namespaces_nsList)
  have "fst (main ?e [''sign1'', ''tmpl.xml'', ''key.pem''] world0) = 0"
    using main_exit_code [of ?e "[''sign1'', ''tmpl.xml'', ''key.pem'']" world0, THEN conjunct1] ok
    by (simp add: example_env_def)
  moreover have "fst (main ?e [''sign1'', ''tmpl.xml''] world0) = 1"
    using main_exit_code [of ?e "[''sign1'', ''tmpl.xml'']" world0,
        THEN conjunct2, THEN conjunct2, THEN conjunct1]
    by simp
  moreover have n0: "fst (main ?e [''sign1'', ''nosig.xml'', ''key.pem''] world0) \<noteq> 0"
    using main_exit_code [of ?e "[''sign1'', ''nosig.xml'', ''key.pem'']" world0, THEN conjunct1] bad
    by simp
  moreover have "fst (main ?e [''sign1'', ''nosig.xml'', ''key.pem''] world0) = - 1
      \<and> exit_status (fst (main ?e [''sign1'', ''nosig.xml'', ''key.pem''] world0)) = 255"
    by (rule main_exit_code [of ?e "[''sign1'', ''nosig.xml'', ''key.pem'']" world0,
        THEN conjunct2, THEN conjunct2, THEN conjunct2, THEN mp]) (simp add: n0)
  ultimately show ?thesis by blast
qed

section \<open>Registering an identifier twice\<close>

text \<open>C1. The check for an identifier that is already registered is disabled in the source
  and the result of \<open>xmlAddID\<close> is not looked at, so what \<open>RegisterID\<close> returns does not
  depend on the identifier table. On the template whose container and certificate both
  carry the identifier \<open>c1\<close>, the second registration finds \<open>c1\<close> in the table and still
  returns 0, and the whole run returns 0.\<close>

theorem RegisterID_duplicate_accepted:
  "fst (RegisterID e node idName (doc\<lparr>ids := tab\<rparr>) w) = fst (RegisterID e node idName doc w)
   \<and> ids (fst (snd (RegisterID (example_env example_files)
          ([0], certificates_node ''c1'' [certificate_node ''c1'']) ''id'' dup_doc world0))) ''c1''
     = Some ([0], id_attr ''c1'')
   \<and> fst (RegisterID (example_env example_files) ([0, 0], certificate_node ''c1'') ''id''
          (fst (snd (RegisterID (example_env example_files)
             ([0], certificates_node ''c1'' [certificate_node ''c1'']) ''id'' dup_doc world0)))
          world0) = 0
   \<and> fst (sign_file (example_env example_files) ''dup.xml'' ''key.pem'' world0) = 0"
proof (intro conjI)
  show "fst (RegisterID e node idName (doc\<lparr>ids := tab\<rparr>) w) = fst (RegisterID e node idName doc w)"
    by (simp add: RegisterID_def split: option.splits)
  show "ids (fst (snd (RegisterID (example_env example_files)
          ([0], certificates_node ''c1'' [certificate_node ''c1'']) ''id'' dup_doc world0))) ''c1''
     = Some ([0], id_attr ''c1'')"
    by (simp add: RegisterID_def xmlHasProp_def example_env_def certificates_node_def
        certificate_node_def id_attr_def dup_doc_def doc_of_def)
  show "fst (RegisterID (example_env example_files) ([0, 0], certificate_node ''c1'') ''id''
          (fst (snd (RegisterID (example_env example_files)
             ([0], certificates_node ''c1'' [certificate_node ''c1'']) ''id'' dup_doc world0)))
          world0) = 0"
    by (simp add: RegisterID_def xmlHasProp_def example_env_def certificates_node_def
        certificate_node_def id_attr_def dup_doc_def doc_of_def)
  show "fst (sign_file (example_env example_files) ''dup.xml'' ''key.pem'' world0) = 0"
    by (simp add: run_defs example_defs register_namespaces_nsList)
qed

section \<open>Registration of an attribute without a value\<close>




section \<open>One signature context for each template\<close>





section \<open>Where the certificate nodes are looked up\<close>

lemma find_node_errors_of_append:
  "find_node_errors_of (xs @ ys) = find_node_errors_of xs @ find_node_errors_of ys"
  by (induction xs rule: find_node_errors_of.induct) simp_all

lemma RegisterID_find_errors:
  "find_node_errors (snd (snd (RegisterID e node idName doc w))) = find_node_errors w"
  by (simp add: RegisterID_def find_node_errors_def eprint_def find_node_errors_of_append
      split: option.splits)

lemma register_namespaces_loop_find_errors:
  "find_node_errors_of (stderr (snd (snd (register_namespaces_loop e xpathCtx s w)))) =
     find_node_errors_of (stderr w)"
proof (induction e xpathCtx s w rule: register_namespaces_loop.induct)
  case (1 e xpathCtx next0 w)
  show ?case
    by (subst register_namespaces_loop.simps)
      (auto simp: Let_def eprint_def find_node_errors_of_append "1.IH"
        split: option.splits prod.splits)
qed

lemma register_namespaces_find_errors:
  "find_node_errors (snd (snd (register_namespaces e xpathCtx s w))) = find_node_errors w"
  using register_namespaces_loop_find_errors [of e xpathCtx s w]
  by (auto simp: register_namespaces_def xmlStrdup_def find_node_errors_def eprint_def
      find_node_errors_of_append)

lemma print_xpath_nodes_find_errors:
  "find_node_errors (print_xpath_nodes nodes w) = find_node_errors w"
  by (simp add: print_xpath_nodes_def print_def find_node_errors_def Let_def)

lemma do_sign_node_find_errors:
  "find_node_errors (snd (snd (do_sign_node e node key_file doc w))) = find_node_errors w"
  by (simp add: do_sign_node_def Let_def find_node_errors_def eprint_def print_def trace_def
      destroy_def find_node_errors_of_append split: option.splits prod.splits)

lemma sign_nodes_find_errors:
  "find_node_errors (snd (snd (sign_nodes e nodeTab key_file doc w))) = find_node_errors w"
proof (induction nodeTab arbitrary: doc w)
  case Nil
  show ?case by simp
next
  case (Cons cur rest)
  obtain rc doc' w' where d: "do_sign_node e cur key_file doc w = (rc, doc', w')"
    by (cases "do_sign_node e cur key_file doc w") auto
  have "find_node_errors w' = find_node_errors w"
    using do_sign_node_find_errors [of e cur key_file doc w] d by simp
  then show ?case using Cons.IH d
    by (simp add: find_node_errors_def eprint_def find_node_errors_of_append)
qed

lemma sign_all_nodes_find_errors:
  "find_node_errors (snd (sign_all_nodes e tmpl_file key_file doc xpathObj w)) = find_node_errors w"
proof -
  let ?tab = "case nodesetval xpathObj of None \<Rightarrow> [] | Some tab \<Rightarrow> tab"
  obtain rc doc' w' where s: "sign_nodes e ?tab key_file doc w = (rc, doc', w')"
    by (cases "sign_nodes e ?tab key_file doc w") auto
  have "find_node_errors w' = find_node_errors w"
    using sign_nodes_find_errors [of e ?tab key_file doc w] s by simp
  then show ?thesis using s
    by (auto simp: sign_all_nodes_def Let_def find_node_errors_def eprint_def print_def
        find_node_errors_of_append split: option.splits)
qed

lemma find_node_errors_eprint:
  "find_node_errors (eprint m w) = find_node_errors w @ find_node_errors_of [m]"
  by (simp add: find_node_errors_def eprint_def find_node_errors_of_append)

text \<open>The run after both certificate nodes have been registered.\<close>

lemma sign_file_after_certs:
  assumes "xmlReadFile e tmpl_file = Some doc" and "root doc = Some r"
    and "xmlSecFindNode r xmlSecNodeCertificates xmlSecNodeCertificatesNS = Some certsNode"
    and "RegisterID e certsNode ''id'' doc w = (rc1, doc1, w1)" and "\<not> rc1 < 0"
    and "xmlSecFindNode r ''certificate'' xmlSecNodeCertificatesNS = Some certNode"
    and "RegisterID e certNode ''id'' doc1 w1 = (rc2, doc2, w2)" and "\<not> rc2 < 0"
  shows "find_node_errors (snd (sign_file e tmpl_file key_file w)) = find_node_errors w2"
proof (cases "xmlXPathNewContext e doc2")
  case None
  with assms show ?thesis by (simp add: sign_file_def find_node_errors_eprint)
next
  case ctx: (Some xpathCtx)
  obtain rc3 xpathCtx' w3 where
    ns: "register_namespaces e xpathCtx nsList w2 = (rc3, xpathCtx', w3)"
    by (cases "register_namespaces e xpathCtx nsList w2") auto
  have w3: "find_node_errors w3 = find_node_errors w2"
    using register_namespaces_find_errors [of e xpathCtx nsList w2] ns by simp
  show ?thesis
  proof (cases "rc3 < 0")
    case True
    with assms ctx ns w3 show ?thesis by (simp add: sign_file_def find_node_errors_eprint)
  next
    case nonneg3: False
    show ?thesis
    proof (cases "xmlXPathEvalExpression e xpathExpr xpathCtx'")
      case None
      with assms ctx ns w3 nonneg3 show ?thesis
        by (simp add: sign_file_def find_node_errors_eprint)
    next
      case (Some xpathObj)
      with assms ctx ns w3 nonneg3 show ?thesis
        by (simp add: sign_file_def sign_all_nodes_find_errors print_xpath_nodes_find_errors)
    qed
  qed
qed

text \<open>C2, as the code has it. The certificates container and the certificate node are each
  looked up by a search that starts at the root element of the document; the search for
  the certificate node is not restricted to the container. For every parsed document:
  the run returns -1 and serialises no document when either search from the root finds no
  node; the diagnostic "unable to find node" is printed exactly when the search from the
  root for the container finds nothing, or, the container being registered, the search
  from the root for the certificate finds nothing, wherever in the document the
  certificate node lies; and in a run that returns 0 the two nodes whose identifiers were
  registered, both with success, are the ones these two searches from the root return.\<close>

theorem sign_file_certificate_nodes_from_root:
  assumes "xmlReadFile e tmpl_file = Some doc" and "root doc = Some r"
  shows "(xmlSecFindNode r xmlSecNodeCertificates xmlSecNodeCertificatesNS = None
          \<or> xmlSecFindNode r ''certificate'' xmlSecNodeCertificatesNS = None
        \<longrightarrow> fst (sign_file e tmpl_file key_file w) = - 1
            \<and> doc_dumps (snd (sign_file e tmpl_file key_file w)) = doc_dumps w)
     \<and> find_node_errors (snd (sign_file e tmpl_file key_file w)) =
         find_node_errors w @
           (case xmlSecFindNode r xmlSecNodeCertificates xmlSecNodeCertificatesNS of
              None \<Rightarrow> [xmlSecNodeCertificates]
            | Some certsNode \<Rightarrow>
                if fst (RegisterID e certsNode ''id'' doc w) < 0 then []
                else
                  (case xmlSecFindNode r ''certificate'' xmlSecNodeCertificatesNS of
                     None \<Rightarrow> [xmlSecNodeCertificates]
                   | Some certNode \<Rightarrow> []))
     \<and> (fst (sign_file e tmpl_file key_file w) = 0 \<longrightarrow>
          (\<exists>certsNode certNode.
             xmlSecFindNode r xmlSecNodeCertificates xmlSecNodeCertificatesNS = Some certsNode
             \<and> xmlSecFindNode r ''certificate'' xmlSecNodeCertificatesNS = Some certNode
             \<and> fst (RegisterID e certsNode ''id'' doc w) = 0
             \<and> fst (RegisterID e certNode ''id''
                    (fst (snd (RegisterID e certsNode ''id'' doc w)))
                    (snd (snd (RegisterID e certsNode ''id'' doc w)))) = 0))"
proof -
  let ?run = "sign_file e tmpl_file key_file w"
  let ?certs = "xmlSecFindNode r xmlSecNodeCertificates xmlSecNodeCertificatesNS"
  let ?cert = "xmlSecFindNode r ''certificate'' xmlSecNodeCertificatesNS"
  let ?diags = "case ?certs of
       None \<Rightarrow> [xmlSecNodeCertificates]
     | Some certsNode \<Rightarrow>
         if fst (RegisterID e certsNode ''id'' doc w) < 0 then []
         else (case ?cert of None \<Rightarrow> [xmlSecNodeCertificates] | Some certNode \<Rightarrow> [])"
  let ?registered = "\<exists>certsNode certNode.
       ?certs = Some certsNode \<and> ?cert = Some certNode
       \<and> fst (RegisterID e certsNode ''id'' doc w) = 0
       \<and> fst (RegisterID e certNode ''id''
              (fst (snd (RegisterID e certsNode ''id'' doc w)))
              (snd (snd (RegisterID e certsNode ''id'' doc w)))) = 0"
  have absent: "?certs = None \<or> ?cert = None
      \<longrightarrow> fst ?run = - 1 \<and> doc_dumps (snd ?run) = doc_dumps w"
    using sign_file_fail_or_tail [of e tmpl_file key_file w] assms by auto
  have located: "find_node_errors (snd ?run) = find_node_errors w @ ?diags
      \<and> (fst ?run = 0 \<longrightarrow> ?registered)"
  proof (cases ?certs)
    case None
    with assms have "?run = (- 1, eprint (Err_find_node xmlSecNodeCertificates) w)"
      by (simp add: sign_file_def)
    with None show ?thesis by (simp add: find_node_errors_eprint)
  next
    case certs: (Some certsNode)
    obtain rc1 doc1 w1 where reg1: "RegisterID e certsNode ''id'' doc w = (rc1, doc1, w1)"
      by (cases "RegisterID e certsNode ''id'' doc w") auto
    have w1: "find_node_errors w1 = find_node_errors w"
      using RegisterID_find_errors [of e certsNode "''id''" doc w] reg1 by simp
    have rc1: "rc1 = 0 \<or> rc1 = - 1"
      using RegisterID_result [of e certsNode "''id''" doc w] reg1 by simp
    show ?thesis
    proof (cases "rc1 < 0")
      case True
      with assms certs reg1 have "?run = (- 1, eprint Err_register_certsNode w1)"
        by (simp add: sign_file_def)
      with certs reg1 True w1 show ?thesis by (simp add: find_node_errors_eprint)
    next
      case nonneg1: False
      with rc1 have rc1_0: "rc1 = 0" by auto
      show ?thesis
      proof (cases ?cert)
        case None
        with assms certs reg1 nonneg1
        have "?run = (- 1, eprint (Err_find_node xmlSecNodeCertificates) w1)"
          by (simp add: sign_file_def)
        with certs reg1 nonneg1 None w1 show ?thesis by (simp add: find_node_errors_eprint)
      next
        case cert: (Some certNode)
        obtain rc2 doc2 w2 where reg2: "RegisterID e certNode ''id'' doc1 w1 = (rc2, doc2, w2)"
          by (cases "RegisterID e certNode ''id'' doc1 w1") auto
        have w2: "find_node_errors w2 = find_node_errors w"
          using RegisterID_find_errors [of e certNode "''id''" doc1 w1] reg2 w1 by simp
        have rc2: "rc2 = 0 \<or> rc2 = - 1"
          using RegisterID_result [of e certNode "''id''" doc1 w1] reg2 by simp
        show ?thesis
        proof (cases "rc2 < 0")
          case True
          with assms certs reg1 nonneg1 cert reg2
          have "?run = (- 1, eprint Err_register_certNode w2)"
            by (simp add: sign_file_def)
          with certs reg1 nonneg1 cert w2 show ?thesis by (simp add: find_node_errors_eprint)
        next
          case nonneg2: False
          with rc2 have rc2_0: "rc2 = 0" by auto
          have "find_node_errors (snd ?run) = find_node_errors w2"
            using assms certs reg1 nonneg1 cert reg2 nonneg2 by (rule sign_file_after_certs)
          moreover have ?registered
            using certs cert reg1 reg2 rc1_0 rc2_0 by simp
          ultimately show ?thesis using certs reg1 nonneg1 cert w2 by simp
        qed
      qed
    qed
  qed
  from absent located show ?thesis by blast
qed

theorem sign_file_certificate_nodes_from_root_witness:
  "fst (sign_file (example_env example_files) ''nocert.xml'' ''key.pem'' world0) = - 1
   \<and> doc_dumps (snd (sign_file (example_env example_files) ''nocert.xml'' ''key.pem'' world0)) = []
   \<and> find_node_errors (snd (sign_file (example_env example_files) ''nocert.xml'' ''key.pem''
        world0)) = [''certificates'']
   \<and> find_node_errors (snd (sign_file (example_env example_files) ''outside.xml'' ''key.pem''
        world0)) = []"
proof -
  let ?e = "example_env example_files"
  let ?nocert = "stb [certificates_node ''cs'' [], signature_node]"
  let ?outside = "stb [certificate_node ''c0'', certificates_node ''cs'' [], signature_node]"
  note nocert = sign_file_certificate_nodes_from_root [of ?e "''nocert.xml''" nocert_doc ?nocert
      "''key.pem''" world0]
  note outside = sign_file_certificate_nodes_from_root [of ?e "''outside.xml''" outside_doc
      ?outside "''key.pem''" world0, THEN conjunct2, THEN conjunct1]
  have read: "xmlReadFile ?e ''nocert.xml'' = Some nocert_doc"
    "xmlReadFile ?e ''outside.xml'' = Some outside_doc"
    by (simp_all add: example_env_def example_files_def)
  have roots: "root nocert_doc = Some ?nocert" "root outside_doc = Some ?outside"
    by (simp_all add: nocert_doc_def outside_doc_def doc_of_def)
  have n1: "xmlSecFindNode ?nocert xmlSecNodeCertificates xmlSecNodeCertificatesNS =
      Some ([0], certificates_node ''cs'' [])"
    and n2: "xmlSecFindNode ?nocert ''certificate'' xmlSecNodeCertificatesNS = None"
    by (simp_all add: stb_def certificates_node_def signature_node_def xmlSecNodeCertificates_def)
  have o1: "xmlSecFindNode ?outside xmlSecNodeCertificates xmlSecNodeCertificatesNS =
      Some ([1], certificates_node ''cs'' [])"
    and o2: "xmlSecFindNode ?outside ''certificate'' xmlSecNodeCertificatesNS =
      Some ([0], certificate_node ''c0'')"
    by (simp_all add: stb_def certificates_node_def certificate_node_def signature_node_def
        xmlSecNodeCertificates_def)
  have reg: "fst (RegisterID ?e ([0], certificates_node ''cs'' []) ''id'' nocert_doc world0) = 0"
    "fst (RegisterID ?e ([1], certificates_node ''cs'' []) ''id'' outside_doc world0) = 0"
    by (simp_all add: RegisterID_def xmlHasProp_def example_env_def certificates_node_def
        id_attr_def)
  from nocert [OF read(1) roots(1)] n1 n2 reg(1)
  have "fst (sign_file ?e ''nocert.xml'' ''key.pem'' world0) = - 1
     \<and> doc_dumps (snd (sign_file ?e ''nocert.xml'' ''key.pem'' world0)) = doc_dumps world0
     \<and> find_node_errors (snd (sign_file ?e ''nocert.xml'' ''key.pem'' world0)) =
         find_node_errors world0 @ [xmlSecNodeCertificates]"
    by simp
  moreover from outside [OF read(2) roots(2)] o1 o2 reg(2)
  have "find_node_errors (snd (sign_file ?e ''outside.xml'' ''key.pem'' world0)) =
      find_node_errors world0"
    by simp
  ultimately show ?thesis
    by (simp add: doc_dumps_def find_node_errors_def world0_def xmlSecNodeCertificates_def)
qed

end
